theory Spec2Isabelle
  imports Main "HOL-Library.Multiset"
begin

section \<open>The Electron main process of incognito-monitor (src/electron/index.js)\<close>

text \<open>
  The handlers of \<^verbatim>\<open>src/electron/index.js\<close> are embedded as HOL functions.
  A handler that is an \<^verbatim>\<open>async function\<close> returns \<open>error + 'a\<close>: \<open>Inl e\<close> is the
  rejected promise (the value thrown), \<open>Inr\<close> carries what the handler passes to
  \<^verbatim>\<open>event.reply\<close>, together with the files it leaves behind when it writes any.
  Log lines (\<^verbatim>\<open>logger.verbose/info/error\<close>) are not part of the model.
\<close>

subsection \<open>Values thrown\<close>

datatype error =
    ENOENT
  | SyntaxError
  | TypeError
  | RpcError string

text \<open>
  \<open>ENOENT\<close>: \<^verbatim>\<open>fs.readFileSync\<close> or a read stream on a file that does not exist.
  \<open>SyntaxError\<close>: \<^verbatim>\<open>JSON.parse\<close> on text that is not JSON.
  \<open>TypeError\<close>: a property read on \<^verbatim>\<open>undefined\<close>.
  \<open>RpcError m\<close>: an RPC call whose promise rejects with an error of message \<open>m\<close>.
\<close>

subsection \<open>The persisted endpoint record\<close>

record node =
  name :: string
  host :: string
  port :: int

text \<open>
  A file is represented by what the program can observe of its bytes. The data file is
  written only by \<^verbatim>\<open>JSON.stringify(nodes, null, 4)\<close> and by stream copies, and read
  only by \<^verbatim>\<open>JSON.parse\<close> and by stream copies. \<open>Endpoints ns\<close> is the JSON text of the
  array \<open>ns\<close> of endpoint objects; \<open>Malformed s\<close> is a text \<open>s\<close> that is not JSON (the empty
  file is \<open>Malformed []\<close>). \<^verbatim>\<open>JSON.parse\<close> inverts \<^verbatim>\<open>JSON.stringify\<close> on arrays of
  objects with string and integer fields, which is what the two functions below say.
\<close>

datatype content = Endpoints "node list" | Malformed string

type_synonym path = string

type_synonym files = "path \<rightharpoonup> content"

definition JSON_parse :: "content \<Rightarrow> error + node list" where
  "JSON_parse c = (case c of Endpoints ns \<Rightarrow> Inr ns | Malformed s \<Rightarrow> Inl SyntaxError)"

definition JSON_stringify :: "node list \<Rightarrow> content" where
  "JSON_stringify ns = Endpoints ns"

text \<open>
  \<^verbatim>\<open>dataPath = path.join(homedir, 'incognito-data')\<close> and
  \<^verbatim>\<open>sampleDataPath = path.join(__dirname, '../data.sample')\<close>; the two directories are
  written symbolically.
\<close>

definition dataPath :: path where
  "dataPath = ''~/incognito-data''"

definition sampleDataPath :: path where
  "sampleDataPath = ''__dirname/../data.sample''"

text \<open>
  \<^verbatim>\<open>readNodes\<close>, lines 20-23. \<^verbatim>\<open>fs.readFileSync\<close> throws when the file is missing and
  otherwise returns a Buffer, which is truthy even when empty, so the alternative
  \<^verbatim>\<open>|| '[]'\<close> is never taken.
\<close>

definition readFileSync :: "path \<Rightarrow> files \<Rightarrow> error + content" where
  "readFileSync p fs = (case fs p of None \<Rightarrow> Inl ENOENT | Some c \<Rightarrow> Inr c)"

definition readNodes :: "files \<Rightarrow> error + node list" where
  "readNodes fs =
     (case readFileSync dataPath fs of
        Inl e \<Rightarrow> Inl e
      | Inr nodesInString \<Rightarrow> JSON_parse nodesInString)"

text \<open>
  \<^verbatim>\<open>fs.writeFileSync\<close> creates or replaces the file and returns \<^verbatim>\<open>undefined\<close>, so the
  \<^verbatim>\<open>if (err)\<close> branches of \<^verbatim>\<open>addNode\<close> and \<^verbatim>\<open>deleteNode\<close> are never taken. Writes to
  the local disk are taken to succeed.
\<close>

definition writeFileSync :: "path \<Rightarrow> content \<Rightarrow> files \<Rightarrow> files" where
  "writeFileSync p c fs = fs(p \<mapsto> c)"

text \<open>
  \<^verbatim>\<open>fs.createReadStream(src).pipe(fs.createWriteStream(dst))\<close>, up to the \<^verbatim>\<open>finish\<close>
  event of the write stream. The write stream opens \<open>dst\<close> with flag \<^verbatim>\<open>w\<close>, which
  creates or empties it; the read stream then delivers what \<open>src\<close> holds. When \<open>src\<close>
  does not exist the read stream emits an error that nothing handles and \<^verbatim>\<open>finish\<close>
  never fires: \<open>Some ENOENT\<close>.
\<close>

definition pipe_stream :: "path \<Rightarrow> path \<Rightarrow> files \<Rightarrow> files \<times> error option" where
  "pipe_stream src dst fs =
     (let opened = fs(dst \<mapsto> Malformed [])
      in case opened src of
           None \<Rightarrow> (opened, Some ENOENT)
         | Some c \<Rightarrow> (opened(dst \<mapsto> c), None))"

subsection \<open>The RPC client\<close>

text \<open>
  Modelled from the spec: the RPC client \<^verbatim>\<open>./incognitoRpc\<close> is not among the sources.
  Section 6 of the spec lists its calls, each "an independent network call that may
  fail"; the fields of the responses are the ones \<^verbatim>\<open>index.js\<close> reads. A call either
  rejects (\<open>Inl\<close>) or resolves with a response (\<open>Inr\<close>). The network is a parameter of
  every handler: it gives, for a host and a port, the answers of the node there during
  one request.
\<close>

record beacon_state =
  BeaconHeight :: int
  BestBlockHash :: string
  Epoch :: int
  ActiveShards :: int

record shard_state =
  ShardHeight :: int
  BestBlockHash :: string
  Epoch :: int
  TotalTxns :: int

text \<open>\<open>Txs\<close>, \<open>Fee\<close> and \<open>Reward\<close> may be missing from a block: \<open>None\<close> is \<^verbatim>\<open>undefined\<close>.\<close>

record raw_block =
  Height :: int
  Hash :: string
  BlockProducer :: string
  Txs :: "int option"
  Fee :: "int option"
  Reward :: "int option"
  Time :: int

record rpc =
  GetNetworkInfo :: "error + unit"
  GetBlockCount :: "int \<Rightarrow> error + int"
  GetBeaconBestState :: "error + beacon_state"
  GetShardBestState :: "int \<Rightarrow> error + shard_state"
  GetBlocks :: "int \<Rightarrow> int \<Rightarrow> error + raw_block list"

type_synonym network = "string \<Rightarrow> int \<Rightarrow> rpc"

definition ConstantRPC :: "network \<Rightarrow> string \<Rightarrow> int \<Rightarrow> rpc" where
  "ConstantRPC net h p = net h p"

subsection \<open>nodeWithStatus (lines 25-47)\<close>

datatype status = ONLINE | OFFLINE

record node_status = node +
  status :: status
  totalBlocks :: "int option"
  beaconHeight :: "int option"

text \<open>
  The three local variables of \<^verbatim>\<open>nodeWithStatus\<close>; \<open>None\<close> is \<^verbatim>\<open>undefined\<close>. The
  \<^verbatim>\<open>try\<close> block assigns them one after the other, and a rejected call leaves the
  block with the assignments made so far; the \<^verbatim>\<open>catch\<close> clause only logs.
\<close>

record probe =
  p_status :: status
  p_totalBlocks :: "int option"
  p_beaconHeight :: "int option"

definition probe_try :: "rpc \<Rightarrow> probe" where
  "probe_try r =
     (let vars = \<lparr> p_status = OFFLINE, p_totalBlocks = None, p_beaconHeight = None \<rparr>
      in case GetNetworkInfo r of
           Inl e \<Rightarrow> vars
         | Inr _ \<Rightarrow>
             (case GetBlockCount r 0 of
                Inl e \<Rightarrow> vars
              | Inr n \<Rightarrow>
                  (let vars = vars\<lparr> p_totalBlocks := Some n \<rparr>
                   in case GetBeaconBestState r of
                        Inl e \<Rightarrow> vars
                      | Inr state \<Rightarrow>
                          vars\<lparr> p_beaconHeight := Some (BeaconHeight state),
                                p_status := ONLINE \<rparr>)))"

definition nodeWithStatus :: "network \<Rightarrow> node \<Rightarrow> node_status" where
  "nodeWithStatus net n =
     (let vars = probe_try (ConstantRPC net (host n) (port n))
      in node.extend n
           \<lparr> status = p_status vars,
             totalBlocks = p_totalBlocks vars,
             beaconHeight = p_beaconHeight vars \<rparr>)"

subsection \<open>The store handlers: addNode, getNodes, deleteNode\<close>

text \<open>\<^verbatim>\<open>addNode\<close>, lines 49-64: replies with the status of the new node.\<close>

definition addNode :: "network \<Rightarrow> node \<Rightarrow> files \<Rightarrow> error + (files \<times> node_status)" where
  "addNode net newNode fs =
     (case readNodes fs of
        Inl e \<Rightarrow> Inl e
      | Inr nodes \<Rightarrow>
          (let newNodes = nodes @ [newNode];
               fs' = writeFileSync dataPath (JSON_stringify newNodes) fs
           in Inr (fs', nodeWithStatus net newNode)))"

text \<open>
  \<^verbatim>\<open>getNodes\<close>, lines 66-85: \<^verbatim>\<open>Promise.all(nodes.map(nodeWithStatus))\<close> is the batch of
  status queries. When the data file does not exist it is first copied from the sample.
\<close>

definition getNodes :: "network \<Rightarrow> files \<Rightarrow> error + (files \<times> node_status list)" where
  "getNodes net fs =
     (if fs dataPath \<noteq> None then
        (case readNodes fs of
           Inl e \<Rightarrow> Inl e
         | Inr nodes \<Rightarrow> Inr (fs, map (nodeWithStatus net) nodes))
      else
        (case pipe_stream sampleDataPath dataPath fs of
           (fs', Some e) \<Rightarrow> Inl e
         | (fs', None) \<Rightarrow>
             (case readNodes fs' of
                Inl e \<Rightarrow> Inl e
              | Inr nodes \<Rightarrow> Inr (fs', map (nodeWithStatus net) nodes))))"

text \<open>\<^verbatim>\<open>deleteNode\<close>, lines 210-224: replies with the name it was given.\<close>

definition deleteNode :: "string \<Rightarrow> files \<Rightarrow> error + (files \<times> string)" where
  "deleteNode nodeName fs =
     (case readNodes fs of
        Inl e \<Rightarrow> Inl e
      | Inr nodes \<Rightarrow>
          (let newNodes = filter (\<lambda>n. name n \<noteq> nodeName) nodes;
               fs' = writeFileSync dataPath (JSON_stringify newNodes) fs
           in Inr (fs', nodeName)))"

subsection \<open>exportNodes and importNodes (lines 87-113)\<close>

text \<open>
  The dialogs are the synchronous ones the code is written for:
  \<^verbatim>\<open>dialog.showSaveDialog\<close> returns a path or \<^verbatim>\<open>undefined\<close>, \<^verbatim>\<open>dialog.showOpenDialog\<close> an
  array of paths or \<^verbatim>\<open>undefined\<close>; their answer is a parameter. The empty string and
  the empty array count as no choice (\<^verbatim>\<open>if (savedFilePath)\<close>,
  \<^verbatim>\<open>filePath && filePath.length\<close>). The result is the files left behind and
  \<^verbatim>\<open>event.returnValue\<close>, or the stream's error when \<^verbatim>\<open>finish\<close> never fires.
\<close>

definition exportNodes :: "path option \<Rightarrow> files \<Rightarrow> files \<times> (error + string)" where
  "exportNodes savedFilePath fs =
     (case savedFilePath of
        None \<Rightarrow> (fs, Inr ''cancel'')
      | Some p \<Rightarrow>
          if p = [] then (fs, Inr ''cancel'')
          else (case pipe_stream dataPath p fs of
                  (fs', Some e) \<Rightarrow> (fs', Inl e)
                | (fs', None) \<Rightarrow> (fs', Inr ''success'')))"

definition importNodes :: "path list option \<Rightarrow> files \<Rightarrow> files \<times> (error + string)" where
  "importNodes filePath fs =
     (case filePath of
        None \<Rightarrow> (fs, Inr ''cancel'')
      | Some [] \<Rightarrow> (fs, Inr ''cancel'')
      | Some (p # _) \<Rightarrow>
          (case pipe_stream p dataPath fs of
             (fs', Some e) \<Rightarrow> (fs', Inl e)
           | (fs', None) \<Rightarrow> (fs', Inr ''success'')))"

subsection \<open>getChains (lines 115-156)\<close>

record chain_summary =
  name :: string
  height :: int
  hash :: string
  epoch :: int
  totalTxs :: "int option"
  index :: int

record node_info = node_status +
  chains :: "chain_summary list"

text \<open>
  What \<^verbatim>\<open>getChains\<close> replies: the node's status with its chains, or the object
  \<^verbatim>\<open>{ chains: [], name: nodeName }\<close> of the \<^verbatim>\<open>catch\<close> clause, \<open>Chains_only cs nm\<close>.
\<close>

datatype chains_reply = Node_info node_info | Chains_only "chain_summary list" string

text \<open>A template literal prints an integer in decimal: \<^verbatim>\<open>`Shard ${shardIndex + 1}`\<close>.\<close>

fun string_of_nat :: "nat \<Rightarrow> string" where
  "string_of_nat n =
     (if n < 10 then [''0123456789'' ! n]
      else string_of_nat (n div 10) @ [''0123456789'' ! (n mod 10)])"

definition string_of_int :: "int \<Rightarrow> string" where
  "string_of_int i =
     (if i < 0 then CHR ''-'' # string_of_nat (nat (- i)) else string_of_nat (nat i))"

text \<open>
  lodash's \<^verbatim>\<open>_.range(start, end)\<close> on integers: it counts up to \<open>end\<close> (excluded) when
  \<open>start < end\<close>, and down to it otherwise, so \<^verbatim>\<open>_.range(0, -2)\<close> is \<^verbatim>\<open>[0, -1]\<close>.
\<close>

definition lodash_range :: "int \<Rightarrow> int \<Rightarrow> int list" where
  "lodash_range start end' =
     (if start < end' then map (\<lambda>k. start + int k) [0..<nat (end' - start)]
      else map (\<lambda>k. start - int k) [0..<nat (start - end')])"

text \<open>
  lodash's \<^verbatim>\<open>_.orderBy(chains, 'index')\<close>: a stable sort, ascending by \<open>index\<close>.
\<close>

definition orderBy_index :: "chain_summary list \<Rightarrow> chain_summary list" where
  "orderBy_index cs = sort_key chain_summary.index cs"

definition beacon_chain :: "beacon_state \<Rightarrow> chain_summary" where
  "beacon_chain beaconInfo =
     \<lparr> chain_summary.name = ''Beacon'',
       height = BeaconHeight beaconInfo,
       hash = beacon_state.BestBlockHash beaconInfo,
       epoch = beacon_state.Epoch beaconInfo,
       totalTxs = None,
       index = - 1 \<rparr>"

definition shard_chain :: "int \<Rightarrow> shard_state \<Rightarrow> chain_summary" where
  "shard_chain shardIndex shard =
     \<lparr> chain_summary.name = ''Shard '' @ string_of_int (shardIndex + 1),
       height = ShardHeight shard,
       hash = shard_state.BestBlockHash shard,
       epoch = shard_state.Epoch shard,
       totalTxs = Some (TotalTxns shard),
       index = shardIndex \<rparr>"

text \<open>
  The shard queries are all issued at once, in the order of \<^verbatim>\<open>_.range\<close>; the order in
  which they complete is the runtime's. A schedule is a list of choices: each picks,
  among the queries still pending, the one that completes next (modulo their number);
  when the choices run out the rest complete in the order they were issued. Every
  schedule gives a permutation of the queries, and every permutation comes from one.
\<close>

fun completion_order :: "nat list \<Rightarrow> 'a list \<Rightarrow> 'a list" where
  "completion_order [] pending = pending"
| "completion_order (c # cs) pending =
     (if pending = [] then []
      else (let k = c mod length pending
            in pending ! k # completion_order cs (take k pending @ drop (Suc k) pending)))"

text \<open>
  \<^verbatim>\<open>Promise.all\<close> over the shard queries, taken in their order of completion: a query
  that resolves pushes its chain onto \<^verbatim>\<open>chains\<close> (here \<open>pushed\<close>); the first one
  that rejects rejects the whole \<^verbatim>\<open>Promise.all\<close> with its error.
\<close>

fun settle_all :: "(int \<times> (error + shard_state)) list \<Rightarrow> chain_summary list
    \<Rightarrow> error + chain_summary list" where
  "settle_all [] pushed = Inr pushed"
| "settle_all ((shardIndex, Inl e) # rest) pushed = Inl e"
| "settle_all ((shardIndex, Inr shard) # rest) pushed =
     settle_all rest (pushed @ [shard_chain shardIndex shard])"

text \<open>
  The \<^verbatim>\<open>try\<close> block. \<^verbatim>\<open>nodes.find\<close> returns \<^verbatim>\<open>undefined\<close> when no node has the
  name, and reading \<^verbatim>\<open>node.host\<close> then throws.
\<close>

definition getChains_try :: "network \<Rightarrow> nat list \<Rightarrow> string \<Rightarrow> files \<Rightarrow> error + node_info" where
  "getChains_try net schedule nodeName fs =
     (case readNodes fs of
        Inl e \<Rightarrow> Inl e
      | Inr nodes \<Rightarrow>
          (case find (\<lambda>item. node.name item = nodeName) nodes of
             None \<Rightarrow> Inl TypeError
           | Some n \<Rightarrow>
               (let r = ConstantRPC net (host n) (port n)
                in case GetBeaconBestState r of
                     Inl e \<Rightarrow> Inl e
                   | Inr beaconInfo \<Rightarrow>
                       (let chains = [beacon_chain beaconInfo];
                            queries = map (\<lambda>shardIndex. (shardIndex, GetShardBestState r shardIndex))
                                        (lodash_range 0 (ActiveShards beaconInfo))
                        in case settle_all (completion_order schedule queries) chains of
                             Inl e \<Rightarrow> Inl e
                           | Inr chains \<Rightarrow>
                               (let nodeInfo = nodeWithStatus net n
                                in Inr (node_status.extend nodeInfo
                                          \<lparr> chains = orderBy_index chains \<rparr>))))))"

definition getChains :: "network \<Rightarrow> nat list \<Rightarrow> string \<Rightarrow> files \<Rightarrow> chains_reply" where
  "getChains net schedule nodeName fs =
     (case getChains_try net schedule nodeName fs of
        Inr nodeInfo \<Rightarrow> Node_info nodeInfo
      | Inl e \<Rightarrow> Chains_only [] nodeName)"

text \<open>The \<open>chains\<close> and \<open>name\<close> properties of either reply.\<close>

definition reply_chains :: "chains_reply \<Rightarrow> chain_summary list" where
  "reply_chains rep = (case rep of Node_info i \<Rightarrow> chains i | Chains_only cs nm \<Rightarrow> cs)"

definition reply_name :: "chains_reply \<Rightarrow> string" where
  "reply_name rep = (case rep of Node_info i \<Rightarrow> node.name i | Chains_only cs nm \<Rightarrow> nm)"

subsection \<open>getBlocks (lines 158-187)\<close>

record block_summary =
  height :: int
  hash :: string
  producer :: string
  tXS :: int
  fee :: int
  reward :: int
  time :: int

record chain_blocks =
  name :: string
  totalBlocks :: int
  producer :: string
  blocks :: "block_summary list"

text \<open>
  \<^verbatim>\<open>x || 0\<close> on an optional number: \<^verbatim>\<open>undefined\<close> and \<open>0\<close> are falsy and give \<open>0\<close>.
\<close>

definition or_zero :: "int option \<Rightarrow> int" where
  "or_zero x = (case x of None \<Rightarrow> 0 | Some v \<Rightarrow> if v \<noteq> 0 then v else 0)"

definition formatBlock :: "raw_block \<Rightarrow> block_summary" where
  "formatBlock block =
     \<lparr> block_summary.height = Height block,
       hash = Hash block,
       producer = BlockProducer block,
       tXS = or_zero (Txs block),
       fee = or_zero (Fee block),
       reward = or_zero (Reward block),
       time = Time block \<rparr>"

text \<open>
  The shard id arrives as the chain's \<open>index\<close>, an integer, and \<^verbatim>\<open>parseInt\<close> of an
  integer is that integer.
\<close>

definition parseInt :: "int \<Rightarrow> int" where
  "parseInt i = i"

text \<open>
  \<^verbatim>\<open>getBlocks\<close> has no \<^verbatim>\<open>try\<close>: whatever is thrown rejects the handler's promise and
  nothing is replied. \<^verbatim>\<open>formattedBlocks[0]\<close> is \<^verbatim>\<open>undefined\<close> on an empty array, and
  reading \<^verbatim>\<open>latestBlock.height\<close> then throws.
\<close>

definition getBlocks :: "network \<Rightarrow> string \<Rightarrow> int \<Rightarrow> files \<Rightarrow> error + chain_blocks" where
  "getBlocks net nodeName shardId fs =
     (let shardIndex = parseInt shardId
      in case readNodes fs of
           Inl e \<Rightarrow> Inl e
         | Inr nodes \<Rightarrow>
             (case find (\<lambda>item. node.name item = nodeName) nodes of
                None \<Rightarrow> Inl TypeError
              | Some n \<Rightarrow>
                  (case GetBlocks (ConstantRPC net (host n) (port n)) 10 shardIndex of
                     Inl e \<Rightarrow> Inl e
                   | Inr raw \<Rightarrow>
                       (let formattedBlocks = map formatBlock raw
                        in case formattedBlocks of
                             [] \<Rightarrow> Inl TypeError
                           | latestBlock # _ \<Rightarrow>
                               Inr \<lparr> chain_blocks.name =
                                       (if shardIndex = - 1 then ''Beacon''
                                        else ''Shard '' @ string_of_int (shardIndex + 1)),
                                     totalBlocks = block_summary.height latestBlock,
                                     producer = block_summary.producer latestBlock,
                                     blocks = formattedBlocks \<rparr>))))"

subsection \<open>Sequences of store operations\<close>

text \<open>
  The states of the store that \<^verbatim>\<open>addNode\<close> and \<^verbatim>\<open>deleteNode\<close> reach: \<open>run_ops\<close> runs
  the handlers one after the other, each on the files the one before left.
\<close>

datatype store_op = Add node | Delete string

fun run_ops :: "network \<Rightarrow> store_op list \<Rightarrow> files \<Rightarrow> error + files" where
  "run_ops net [] fs = Inr fs"
| "run_ops net (Add newNode # ops) fs =
     (case addNode net newNode fs of
        Inl e \<Rightarrow> Inl e
      | Inr (fs', reply) \<Rightarrow> run_ops net ops fs')"
| "run_ops net (Delete nodeName # ops) fs =
     (case deleteNode nodeName fs of
        Inl e \<Rightarrow> Inl e
      | Inr (fs', reply) \<Rightarrow> run_ops net ops fs')"

text \<open>
  \<open>fresh_adds names ops\<close>: every \<open>Add\<close> of \<open>ops\<close> brings a name that is not stored at
  that moment, \<open>names\<close> being the names stored before \<open>ops\<close>.
\<close>

fun fresh_adds :: "string list \<Rightarrow> store_op list \<Rightarrow> bool" where
  "fresh_adds names [] = True"
| "fresh_adds names (Add newNode # ops) =
     (node.name newNode \<notin> set names \<and> fresh_adds (names @ [node.name newNode]) ops)"
| "fresh_adds names (Delete nodeName # ops) =
     fresh_adds (filter (\<lambda>nm. nm \<noteq> nodeName) names) ops"

section \<open>Concrete scenarios\<close>

text \<open>
  The endpoint \<open>X\<close> of the spec's scenario: a node with two active shards, beacon height
  100, shard heights 50 and 60, all of whose calls succeed (\<open>net_up\<close>); and the same
  node when its beacon best-state call is refused (\<open>net_beacon_down\<close>).
\<close>

definition node_X :: node where
  "node_X = \<lparr> node.name = ''X'', host = ''h1'', port = 1 \<rparr>"

definition beacon_X :: beacon_state where
  "beacon_X =
     \<lparr> BeaconHeight = 100, beacon_state.BestBlockHash = ''b100'',
       beacon_state.Epoch = 7, ActiveShards = 2 \<rparr>"

definition shard_X :: "int \<Rightarrow> shard_state" where
  "shard_X shardIndex =
     \<lparr> ShardHeight = 50 + 10 * shardIndex, shard_state.BestBlockHash = ''s'',
       shard_state.Epoch = 7, TotalTxns = 3 \<rparr>"

definition rpc_up :: rpc where
  "rpc_up =
     \<lparr> GetNetworkInfo = Inr (),
       GetBlockCount = (\<lambda>shardIndex. Inr 160),
       GetBeaconBestState = Inr beacon_X,
       GetShardBestState = (\<lambda>shardIndex. Inr (shard_X shardIndex)),
       GetBlocks = (\<lambda>n shardIndex. Inr []) \<rparr>"

definition net_up :: network where
  "net_up h p = rpc_up"

definition net_beacon_down :: network where
  "net_beacon_down h p = rpc_up\<lparr> GetBeaconBestState := Inl (RpcError ''ECONNRESET'') \<rparr>"

definition net_shard_down :: network where
  "net_shard_down h p =
     rpc_up\<lparr> GetShardBestState :=
               (\<lambda>shardIndex. if shardIndex = 1 then Inl (RpcError ''ETIMEDOUT'')
                              else Inr (shard_X shardIndex)) \<rparr>"

text \<open>A node that lists two blocks, the first without \<open>Txs\<close> and \<open>Reward\<close>.\<close>

definition block_12 :: raw_block where
  "block_12 =
     \<lparr> Height = 12, Hash = ''h12'', BlockProducer = ''p1'',
       Txs = None, Fee = Some 5, Reward = None, Time = 1700000012 \<rparr>"

definition block_11 :: raw_block where
  "block_11 =
     \<lparr> Height = 11, Hash = ''h11'', BlockProducer = ''p2'',
       Txs = Some 2, Fee = None, Reward = Some 40, Time = 1700000011 \<rparr>"

definition net_blocks :: network where
  "net_blocks h p = rpc_up\<lparr> GetBlocks := (\<lambda>n shardIndex. Inr [block_12, block_11]) \<rparr>"

text \<open>
  The endpoints \<open>A\<close> and \<open>B\<close> of the store scenarios, and the files in which the data file
  holds the list \<open>ns\<close> and nothing else exists.
\<close>

definition node_A :: node where
  "node_A = \<lparr> node.name = ''A'', host = ''h1'', port = 1 \<rparr>"

definition node_B :: node where
  "node_B = \<lparr> node.name = ''B'', host = ''h2'', port = 2 \<rparr>"

definition store_of :: "node list \<Rightarrow> files" where
  "store_of ns = [dataPath \<mapsto> JSON_stringify ns]"

section \<open>Properties\<close>

subsection \<open>nodeWithStatus\<close>

lemma probe_try_online:
  "GetNetworkInfo r = Inr u \<Longrightarrow> GetBlockCount r 0 = Inr c \<Longrightarrow> GetBeaconBestState r = Inr st \<Longrightarrow>
   probe_try r =
     \<lparr> p_status = ONLINE, p_totalBlocks = Some c, p_beaconHeight = Some (BeaconHeight st) \<rparr>"
  by (simp add: probe_try_def)

lemma probe_try_offline:
  "isl (GetNetworkInfo r) \<or> isl (GetBlockCount r 0) \<or> isl (GetBeaconBestState r) \<Longrightarrow>
   p_status (probe_try r) = OFFLINE \<and> p_beaconHeight (probe_try r) = None"
  by (auto simp: probe_try_def Let_def split: sum.splits)

lemma probe_try_no_count:
  "isl (GetNetworkInfo r) \<or> isl (GetBlockCount r 0) \<Longrightarrow> p_totalBlocks (probe_try r) = None"
  by (auto simp: probe_try_def Let_def split: sum.splits)

lemma probe_try_count:
  "\<not> isl (GetNetworkInfo r) \<Longrightarrow> GetBlockCount r 0 = Inr c \<Longrightarrow>
   p_totalBlocks (probe_try r) = Some c"
  by (auto simp: probe_try_def Let_def split: sum.splits)

lemma nodeWithStatus_fields:
  "status (nodeWithStatus net n) = p_status (probe_try (ConstantRPC net (host n) (port n)))"
  "node_status.totalBlocks (nodeWithStatus net n) =
     p_totalBlocks (probe_try (ConstantRPC net (host n) (port n)))"
  "beaconHeight (nodeWithStatus net n) =
     p_beaconHeight (probe_try (ConstantRPC net (host n) (port n)))"
  by (simp_all add: nodeWithStatus_def node.extend_def Let_def)

lemma nodeWithStatus_truncate: "node.truncate (nodeWithStatus net n) = n"
  by (simp add: nodeWithStatus_def node.extend_def node.truncate_def Let_def)

lemma nodeWithStatus_endpoint:
  "node.name (nodeWithStatus net n) = node.name n"
  "host (nodeWithStatus net n) = host n"
  "port (nodeWithStatus net n) = port n"
  by (simp_all add: nodeWithStatus_def node.extend_def Let_def)

text \<open>
  C1. When the three probe calls of an endpoint succeed (\<^verbatim>\<open>GetNetworkInfo\<close>,
  \<^verbatim>\<open>GetBlockCount(0)\<close>, \<^verbatim>\<open>GetBeaconBestState\<close>), \<^verbatim>\<open>nodeWithStatus\<close> returns a record
  whose status is ONLINE, whose \<open>totalBlocks\<close> is the block count, whose \<open>beaconHeight\<close>
  is the \<open>BeaconHeight\<close> of the best-state response, and whose \<open>name\<close>, \<open>host\<close> and \<open>port\<close>
  are the endpoint's.
\<close>

theorem nodeWithStatus_online:
  assumes "GetNetworkInfo (ConstantRPC net (host n) (port n)) = Inr info"
      and "GetBlockCount (ConstantRPC net (host n) (port n)) 0 = Inr blockCount"
      and "GetBeaconBestState (ConstantRPC net (host n) (port n)) = Inr state"
  shows "status (nodeWithStatus net n) = ONLINE
       \<and> node_status.totalBlocks (nodeWithStatus net n) = Some blockCount
       \<and> beaconHeight (nodeWithStatus net n) = Some (BeaconHeight state)
       \<and> node.name (nodeWithStatus net n) = node.name n
       \<and> host (nodeWithStatus net n) = host n
       \<and> port (nodeWithStatus net n) = port n
       \<and> node.truncate (nodeWithStatus net n) = n"
  using probe_try_online [OF assms]
  by (simp add: nodeWithStatus_fields nodeWithStatus_endpoint nodeWithStatus_truncate)

theorem nodeWithStatus_online_witness:
  "status (nodeWithStatus net_up node_X) = ONLINE
   \<and> node_status.totalBlocks (nodeWithStatus net_up node_X) = Some 160
   \<and> beaconHeight (nodeWithStatus net_up node_X) = Some 100
   \<and> node.truncate (nodeWithStatus net_up node_X)
       = \<lparr> node.name = ''X'', host = ''h1'', port = 1 \<rparr>"
  using nodeWithStatus_online [of net_up node_X "()" 160 beacon_X]
  by (simp add: net_up_def rpc_up_def node_X_def beacon_X_def ConstantRPC_def)

text \<open>
  C2, as the code has it. When any of the three probe calls of an endpoint throws,
  \<^verbatim>\<open>nodeWithStatus\<close> returns status OFFLINE with \<open>beaconHeight\<close> undefined and the
  endpoint's own fields. \<open>totalBlocks\<close> is undefined when \<^verbatim>\<open>GetNetworkInfo\<close> or
  \<^verbatim>\<open>GetBlockCount\<close> throws; when these two succeed and only \<^verbatim>\<open>GetBeaconBestState\<close>
  throws, \<open>totalBlocks\<close> holds the block count already assigned. Nothing is thrown: a
  batch of queries over endpoints \<open>ns\<close> yields one status per endpoint, in order.
\<close>

theorem nodeWithStatus_offline:
  assumes "isl (GetNetworkInfo (ConstantRPC net (host n) (port n)))
         \<or> isl (GetBlockCount (ConstantRPC net (host n) (port n)) 0)
         \<or> isl (GetBeaconBestState (ConstantRPC net (host n) (port n)))"
  shows "status (nodeWithStatus net n) = OFFLINE
       \<and> beaconHeight (nodeWithStatus net n) = None
       \<and> (isl (GetNetworkInfo (ConstantRPC net (host n) (port n)))
            \<or> isl (GetBlockCount (ConstantRPC net (host n) (port n)) 0)
          \<longrightarrow> node_status.totalBlocks (nodeWithStatus net n) = None)
       \<and> (\<forall>blockCount. \<not> isl (GetNetworkInfo (ConstantRPC net (host n) (port n)))
            \<and> GetBlockCount (ConstantRPC net (host n) (port n)) 0 = Inr blockCount
          \<longrightarrow> node_status.totalBlocks (nodeWithStatus net n) = Some blockCount)
       \<and> node.truncate (nodeWithStatus net n) = n
       \<and> map node.truncate (map (nodeWithStatus net) ns) = ns"
proof -
  let ?r = "ConstantRPC net (host n) (port n)"
  have "p_status (probe_try ?r) = OFFLINE" "p_beaconHeight (probe_try ?r) = None"
    using probe_try_offline [OF assms] by simp_all
  moreover have "map node.truncate (map (nodeWithStatus net) ns) = ns"
    by (simp add: nodeWithStatus_truncate comp_def)
  ultimately show ?thesis
    by (simp add: nodeWithStatus_fields nodeWithStatus_truncate probe_try_no_count
        probe_try_count)
qed

theorem nodeWithStatus_offline_witness:
  "status (nodeWithStatus net_beacon_down node_X) = OFFLINE
   \<and> beaconHeight (nodeWithStatus net_beacon_down node_X) = None
   \<and> node_status.totalBlocks (nodeWithStatus net_beacon_down node_X) = Some 160
   \<and> node.truncate (nodeWithStatus net_beacon_down node_X) = node_X
   \<and> map node.truncate (map (nodeWithStatus net_beacon_down) [node_X, node_X])
       = [node_X, node_X]"
proof -
  have probes:
    "isl (GetNetworkInfo (ConstantRPC net_beacon_down (host node_X) (port node_X)))
     \<or> isl (GetBlockCount (ConstantRPC net_beacon_down (host node_X) (port node_X)) 0)
     \<or> isl (GetBeaconBestState (ConstantRPC net_beacon_down (host node_X) (port node_X)))"
    by (simp add: net_beacon_down_def ConstantRPC_def)
  have "\<not> isl (GetNetworkInfo (ConstantRPC net_beacon_down (host node_X) (port node_X)))"
       "GetBlockCount (ConstantRPC net_beacon_down (host node_X) (port node_X)) 0 = Inr 160"
    by (simp_all add: net_beacon_down_def rpc_up_def ConstantRPC_def)
  with nodeWithStatus_offline [OF probes, of "[node_X, node_X]"] show ?thesis
    by simp
qed

text \<open>
  The claim as worded (both numeric fields undefined whenever a probe call throws) fails
  where only the third call throws: the count of the second call is returned.
\<close>

theorem nodeWithStatus_offline_counterexample:
  "GetBeaconBestState (ConstantRPC net_beacon_down (host node_X) (port node_X))
     = Inl (RpcError ''ECONNRESET'')
   \<and> status (nodeWithStatus net_beacon_down node_X) = OFFLINE
   \<and> node_status.totalBlocks (nodeWithStatus net_beacon_down node_X) = Some 160"
  by (simp add: nodeWithStatus_def probe_try_def net_beacon_down_def rpc_up_def node_X_def
      ConstantRPC_def node.extend_def)

subsection \<open>The store\<close>

lemma readNodes_Some:
  "readNodes fs = Inr nodes \<longleftrightarrow> fs dataPath = Some (Endpoints nodes)"
  by (auto simp: readNodes_def readFileSync_def JSON_parse_def
      split: option.splits content.splits)

lemma readNodes_write:
  "readNodes (writeFileSync dataPath (JSON_stringify ns) fs) = Inr ns"
  by (simp add: readNodes_Some writeFileSync_def JSON_stringify_def)

lemma write_same:
  "readNodes fs = Inr ns \<Longrightarrow> writeFileSync dataPath (JSON_stringify ns) fs = fs"
  by (auto simp: readNodes_Some writeFileSync_def JSON_stringify_def)

lemma addNode_ok:
  "readNodes fs = Inr nodes \<Longrightarrow>
   addNode net newNode fs =
     Inr (writeFileSync dataPath (JSON_stringify (nodes @ [newNode])) fs,
          nodeWithStatus net newNode)"
  by (simp add: addNode_def)

lemma addNode_rejects: "readNodes fs = Inl e \<Longrightarrow> addNode net newNode fs = Inl e"
  by (simp add: addNode_def)

lemma deleteNode_ok:
  "readNodes fs = Inr nodes \<Longrightarrow>
   deleteNode nodeName fs =
     Inr (writeFileSync dataPath
            (JSON_stringify (filter (\<lambda>n. node.name n \<noteq> nodeName) nodes)) fs,
          nodeName)"
  by (simp add: deleteNode_def)

lemma getNodes_batch:
  "readNodes fs = Inr nodes \<Longrightarrow> getNodes net fs = Inr (fs, map (nodeWithStatus net) nodes)"
proof -
  assume listed: "readNodes fs = Inr nodes"
  then have "fs dataPath \<noteq> None"
    by (simp add: readNodes_Some)
  then show ?thesis
    using listed by (simp add: getNodes_def)
qed

lemma getNodes_seeds:
  assumes "fs dataPath = None" and "fs sampleDataPath = Some (Endpoints sample)"
  shows "getNodes net fs
           = Inr (fs(dataPath \<mapsto> Endpoints sample), map (nodeWithStatus net) sample)"
proof -
  have "sampleDataPath \<noteq> dataPath"
    by (simp add: sampleDataPath_def dataPath_def)
  then have "pipe_stream sampleDataPath dataPath fs = (fs(dataPath \<mapsto> Endpoints sample), None)"
    using assms(2) by (simp add: pipe_stream_def Let_def)
  moreover have "readNodes (fs(dataPath \<mapsto> Endpoints sample)) = Inr sample"
    by (simp add: readNodes_Some)
  ultimately show ?thesis
    using assms(1) by (simp add: getNodes_def)
qed

lemma readNodes_store_of: "readNodes (store_of ns) = Inr ns"
  by (simp add: store_of_def readNodes_Some JSON_stringify_def)

lemma write_store_of: "writeFileSync dataPath (JSON_stringify ns) (store_of ms) = store_of ns"
  by (simp add: store_of_def writeFileSync_def)

lemma addNode_store_of:
  "addNode net newNode (store_of ns)
     = Inr (store_of (ns @ [newNode]), nodeWithStatus net newNode)"
  by (simp add: addNode_ok [OF readNodes_store_of] write_store_of)

lemma deleteNode_store_of:
  "deleteNode nodeName (store_of ns)
     = Inr (store_of (filter (\<lambda>n. node.name n \<noteq> nodeName) ns), nodeName)"
  by (simp add: deleteNode_ok [OF readNodes_store_of] write_store_of)

text \<open>
  C6. In a store whose list can be read, \<^verbatim>\<open>addNode\<close> followed by a listing yields the
  previous list with the new endpoint appended once, after all the entries that were
  there, which keep their order: \<^verbatim>\<open>readNodes\<close> returns \<open>nodes @ [newNode]\<close>, and
  \<^verbatim>\<open>getNodes\<close> replies with the statuses of exactly these endpoints, in this order.
\<close>

theorem addNode_then_list:
  assumes "readNodes fs = Inr nodes"
  shows "\<exists>fs'. addNode net newNode fs = Inr (fs', nodeWithStatus net newNode)
           \<and> readNodes fs' = Inr (nodes @ [newNode])
           \<and> getNodes net fs' = Inr (fs', map (nodeWithStatus net) (nodes @ [newNode]))
           \<and> map node.truncate (map (nodeWithStatus net) (nodes @ [newNode]))
               = nodes @ [newNode]"
proof -
  let ?fs' = "writeFileSync dataPath (JSON_stringify (nodes @ [newNode])) fs"
  have "addNode net newNode fs = Inr (?fs', nodeWithStatus net newNode)"
    using assms by (rule addNode_ok)
  moreover have listed: "readNodes ?fs' = Inr (nodes @ [newNode])"
    by (rule readNodes_write)
  moreover have "getNodes net ?fs' = Inr (?fs', map (nodeWithStatus net) (nodes @ [newNode]))"
    using listed by (rule getNodes_batch)
  moreover have "map node.truncate (map (nodeWithStatus net) (nodes @ [newNode]))
      = nodes @ [newNode]"
    by (simp add: nodeWithStatus_truncate comp_def)
  ultimately show ?thesis by blast
qed

theorem addNode_then_list_witness:
  "addNode net_up node_B (store_of [node_A])
     = Inr (store_of [node_A, node_B], nodeWithStatus net_up node_B)
   \<and> readNodes (store_of [node_A, node_B]) = Inr [node_A, node_B]"
  using addNode_then_list [OF readNodes_store_of [of "[node_A]"], of net_up node_B]
  by (simp add: addNode_store_of)

text \<open>
  C7. In a store whose list can be read, \<^verbatim>\<open>deleteNode\<close> removes every entry whose name
  is the given one and keeps the others in their order (the list becomes the filtered
  list). When no entry has the name, nothing changes: the files and the list are as
  before. Deleting the same name again changes nothing. Each time the reply is the name.
\<close>

theorem deleteNode_then_list:
  assumes "readNodes fs = Inr nodes"
  shows "\<exists>fs'. deleteNode nodeName fs = Inr (fs', nodeName)
           \<and> readNodes fs' = Inr (filter (\<lambda>n. node.name n \<noteq> nodeName) nodes)
           \<and> (nodeName \<notin> node.name ` set nodes \<longrightarrow> fs' = fs \<and> readNodes fs' = Inr nodes)
           \<and> deleteNode nodeName fs' = Inr (fs', nodeName)"
proof -
  let ?kept = "filter (\<lambda>n. node.name n \<noteq> nodeName) nodes"
  let ?fs' = "writeFileSync dataPath (JSON_stringify ?kept) fs"
  have 1: "deleteNode nodeName fs = Inr (?fs', nodeName)"
    using assms by (rule deleteNode_ok)
  have 2: "readNodes ?fs' = Inr ?kept"
    by (rule readNodes_write)
  have "nodeName \<notin> node.name ` set nodes \<longrightarrow> ?kept = nodes"
    by (auto simp: filter_id_conv)
  then have 3: "nodeName \<notin> node.name ` set nodes \<longrightarrow> ?fs' = fs \<and> readNodes ?fs' = Inr nodes"
    using assms by (auto simp: write_same)
  have "writeFileSync dataPath (JSON_stringify ?kept) ?fs' = ?fs'"
    by (simp add: writeFileSync_def)
  then have 4: "deleteNode nodeName ?fs' = Inr (?fs', nodeName)"
    using deleteNode_ok [OF 2, of nodeName] by simp
  from 1 2 3 4 show ?thesis by blast
qed

theorem deleteNode_then_list_witness:
  "deleteNode ''A'' (store_of [node_A]) = Inr (store_of [], ''A'')
   \<and> readNodes (store_of []) = Inr []
   \<and> deleteNode ''A'' (store_of []) = Inr (store_of [], ''A'')"
  using deleteNode_then_list [OF readNodes_store_of [of "[node_A]"], of "''A''"]
  by (simp add: deleteNode_store_of readNodes_store_of node_A_def)

lemma run_ops_distinct:
  "readNodes fs = Inr nodes \<Longrightarrow> distinct (map node.name nodes) \<Longrightarrow>
   fresh_adds (map node.name nodes) ops \<Longrightarrow>
   \<exists>fs' nodes'. run_ops net ops fs = Inr fs' \<and> readNodes fs' = Inr nodes'
      \<and> distinct (map node.name nodes')"
proof (induction ops arbitrary: fs nodes)
  case Nil
  then show ?case by simp
next
  case (Cons op ops)
  show ?case
  proof (cases op)
    case (Add newNode)
    let ?fs' = "writeFileSync dataPath (JSON_stringify (nodes @ [newNode])) fs"
    have "readNodes ?fs' = Inr (nodes @ [newNode])"
      by (rule readNodes_write)
    moreover have "distinct (map node.name (nodes @ [newNode]))"
      using Cons.prems Add by auto
    moreover have "fresh_adds (map node.name (nodes @ [newNode])) ops"
      using Cons.prems Add by simp
    ultimately obtain fs'' nodes' where
      "run_ops net ops ?fs' = Inr fs''" "readNodes fs'' = Inr nodes'"
      "distinct (map node.name nodes')"
      using Cons.IH by blast
    then show ?thesis
      using Add Cons.prems(1) by (simp add: addNode_ok)
  next
    case (Delete nodeName)
    let ?kept = "filter (\<lambda>n. node.name n \<noteq> nodeName) nodes"
    let ?fs' = "writeFileSync dataPath (JSON_stringify ?kept) fs"
    have "readNodes ?fs' = Inr ?kept"
      by (rule readNodes_write)
    moreover have "distinct (map node.name ?kept)"
      using Cons.prems(2) by (simp add: distinct_map_filter)
    moreover have "map node.name ?kept = filter (\<lambda>nm. nm \<noteq> nodeName) (map node.name nodes)"
      by (simp add: filter_map comp_def)
    then have "fresh_adds (map node.name ?kept) ops"
      using Cons.prems(3) Delete by simp
    ultimately obtain fs'' nodes' where
      "run_ops net ops ?fs' = Inr fs''" "readNodes fs'' = Inr nodes'"
      "distinct (map node.name nodes')"
      using Cons.IH by blast
    then show ?thesis
      using Delete Cons.prems(1) by (simp add: deleteNode_ok)
  qed
qed

text \<open>
  C9, as the code has it. \<^verbatim>\<open>addNode\<close> appends whatever it is given and checks nothing,
  so the names stay unique only as long as no endpoint is added under a name that is
  stored at that moment: from a store whose names are unique, every sequence of
  \<^verbatim>\<open>addNode\<close> and \<^verbatim>\<open>deleteNode\<close> in which each added name is fresh leads to a store
  whose names are unique.
\<close>

theorem names_unique_if_fresh:
  assumes "readNodes fs = Inr nodes"
      and "distinct (map node.name nodes)"
      and "fresh_adds (map node.name nodes) ops"
  shows "\<exists>fs' nodes'. run_ops net ops fs = Inr fs' \<and> readNodes fs' = Inr nodes'
           \<and> distinct (map node.name nodes')"
  using assms by (rule run_ops_distinct)

theorem names_unique_if_fresh_witness:
  "run_ops net_up [Add node_A, Add node_B, Delete ''A'', Add node_A] (store_of [])
     = Inr (store_of [node_B, node_A])
   \<and> readNodes (store_of [node_B, node_A]) = Inr [node_B, node_A]
   \<and> distinct (map node.name [node_B, node_A])"
proof -
  have "fresh_adds (map node.name []) [Add node_A, Add node_B, Delete ''A'', Add node_A]"
    by (simp add: node_A_def node_B_def)
  from names_unique_if_fresh [OF readNodes_store_of _ this, of net_up]
  show ?thesis
    by (simp add: addNode_store_of deleteNode_store_of readNodes_store_of node_A_def node_B_def)
qed

text \<open>
  The claim as worded fails: adding the endpoint \<open>A\<close> twice to the empty store leaves two
  entries named \<open>A\<close>.
\<close>

theorem names_unique_counterexample:
  "run_ops net_up [Add node_A, Add node_A] (store_of []) = Inr (store_of [node_A, node_A])
   \<and> readNodes (store_of [node_A, node_A]) = Inr [node_A, node_A]
   \<and> \<not> distinct (map node.name [node_A, node_A])"
  by (simp add: addNode_store_of readNodes_store_of)

subsection \<open>exportNodes and importNodes\<close>

text \<open>
  C8. Whatever the data file holds, exporting it to a chosen destination other than the
  data file itself and then importing that destination (into the same store, or into
  one whose data file has meanwhile been changed or removed) leaves in the data file
  exactly the content that was exported; both handlers return \<^verbatim>\<open>'success'\<close>.
\<close>

theorem export_then_import:
  assumes "fs dataPath = Some persisted" and "dst \<noteq> dataPath" and "dst \<noteq> []"
  shows "\<exists>fs1. exportNodes (Some dst) fs = (fs1, Inr ''success'')
           \<and> fs1 dst = Some persisted \<and> fs1 dataPath = Some persisted
           \<and> (\<forall>other. \<exists>fs2.
                 importNodes (Some [dst]) (fs1(dataPath := other)) = (fs2, Inr ''success'')
                 \<and> fs2 dataPath = Some persisted \<and> fs2 dst = Some persisted)"
  using assms
  by (simp add: exportNodes_def importNodes_def pipe_stream_def Let_def)

theorem export_then_import_witness:
  "snd (exportNodes (Some ''/tmp/nodes.bak'') (store_of [node_A])) = Inr ''success''
   \<and> fst (exportNodes (Some ''/tmp/nodes.bak'') (store_of [node_A])) ''/tmp/nodes.bak''
       = Some (Endpoints [node_A])
   \<and> snd (importNodes (Some [''/tmp/nodes.bak''])
            ((fst (exportNodes (Some ''/tmp/nodes.bak'') (store_of [node_A])))
               (dataPath := None)))
       = Inr ''success''
   \<and> fst (importNodes (Some [''/tmp/nodes.bak''])
            ((fst (exportNodes (Some ''/tmp/nodes.bak'') (store_of [node_A])))
               (dataPath := None))) dataPath
       = Some (Endpoints [node_A])"
proof -
  have "store_of [node_A] dataPath = Some (Endpoints [node_A])"
    by (simp add: store_of_def JSON_stringify_def)
  moreover have "''/tmp/nodes.bak'' \<noteq> dataPath" "''/tmp/nodes.bak'' \<noteq> []"
    by (simp_all add: dataPath_def)
  ultimately obtain fs1 where
    1: "exportNodes (Some ''/tmp/nodes.bak'') (store_of [node_A]) = (fs1, Inr ''success'')"
       "fs1 ''/tmp/nodes.bak'' = Some (Endpoints [node_A])"
    and 2: "\<forall>other. \<exists>fs2.
       importNodes (Some [''/tmp/nodes.bak'']) (fs1(dataPath := other)) = (fs2, Inr ''success'')
       \<and> fs2 dataPath = Some (Endpoints [node_A])
       \<and> fs2 ''/tmp/nodes.bak'' = Some (Endpoints [node_A])"
    using export_then_import [of "store_of [node_A]" "Endpoints [node_A]" "''/tmp/nodes.bak''"]
    by blast
  from 2 obtain fs2 where
    "importNodes (Some [''/tmp/nodes.bak'']) (fs1(dataPath := None)) = (fs2, Inr ''success'')"
    "fs2 dataPath = Some (Endpoints [node_A])"
    by blast
  with 1 show ?thesis by simp
qed

subsection \<open>getChains\<close>

lemma completion_order_mset: "mset (completion_order cs pending) = mset pending"
proof (induction cs arbitrary: pending)
  case Nil
  then show ?case by simp
next
  case (Cons c cs)
  show ?case
  proof (cases "pending = []")
    case True
    then show ?thesis by simp
  next
    case False
    let ?k = "c mod length pending"
    have k: "?k < length pending"
      using False by simp
    have "mset pending = mset (take ?k pending @ pending ! ?k # drop (Suc ?k) pending)"
      using id_take_nth_drop [OF k] by simp
    then show ?thesis
      using False Cons.IH [of "take ?k pending @ drop (Suc ?k) pending"]
      by (simp add: Let_def)
  qed
qed

lemma completion_order_set: "set (completion_order cs pending) = set pending"
  using completion_order_mset [of cs pending] by (metis set_mset_mset)

text \<open>Every order of completion is the order of some schedule.\<close>

lemma completion_order_complete:
  "mset order = mset pending \<Longrightarrow> \<exists>cs. completion_order cs pending = order"
proof (induction order arbitrary: pending)
  case Nil
  then have "completion_order [] pending = []"
    by simp
  then show ?case by blast
next
  case (Cons x xs)
  have "x \<in> set pending"
    using Cons.prems by (metis list.set_intros(1) set_mset_mset)
  then obtain k where k: "k < length pending" "pending ! k = x"
    by (auto simp: in_set_conv_nth)
  let ?rest = "take k pending @ drop (Suc k) pending"
  have "pending = take k pending @ x # drop (Suc k) pending"
    using id_take_nth_drop [OF k(1)] k(2) by simp
  then have "mset pending = mset ?rest + {#x#}"
    by (metis add_mset_add_single mset.simps(2) mset_append union_mset_add_mset_right)
  then have "mset xs = mset ?rest"
    using Cons.prems by simp
  then obtain cs where "completion_order cs ?rest = xs"
    using Cons.IH by blast
  then have "completion_order (k # cs) pending = x # xs"
    using k by (auto simp: Let_def)
  then show ?case by blast
qed

lemma settle_all_Inr:
  "settle_all qs acc = Inr cs \<longleftrightarrow>
     (\<forall>q\<in>set qs. \<not> isl (snd q))
     \<and> cs = acc @ map (\<lambda>q. shard_chain (fst q) (projr (snd q))) qs"
  by (induction qs acc rule: settle_all.induct) auto

lemma settle_all_isl:
  "isl (settle_all qs acc) \<longleftrightarrow> (\<exists>q\<in>set qs. isl (snd q))"
  by (induction qs acc rule: settle_all.induct) auto

lemma settle_completion_fails:
  assumes "i \<in> set is" and "isl (f i)"
  shows "isl (settle_all (completion_order schedule (map (\<lambda>k. (k, f k)) is)) acc)"
proof -
  have "(i, f i) \<in> set (completion_order schedule (map (\<lambda>k. (k, f k)) is))"
    using assms(1) by (simp add: completion_order_set)
  then show ?thesis
    unfolding settle_all_isl using assms(2) by (intro bexI [of _ "(i, f i)"]) simp_all
qed

lemma mset_map_perm: "mset xs = mset ys \<Longrightarrow> mset (map h xs) = mset (map h ys)"
  by simp

lemma settle_completion_ok:
  assumes "\<forall>i\<in>set is. f i = Inr (g i)"
  shows "\<exists>cs. settle_all (completion_order schedule (map (\<lambda>k. (k, f k)) is)) acc
                 = Inr (acc @ cs)
            \<and> mset cs = mset (map (\<lambda>k. shard_chain k (g k)) is)"
proof -
  let ?qs = "completion_order schedule (map (\<lambda>k. (k, f k)) is)"
  let ?h = "\<lambda>q. shard_chain (fst q) (projr (snd q))"
  have "set ?qs = (\<lambda>k. (k, f k)) ` set is"
    by (simp add: completion_order_set)
  then have ok: "\<forall>q\<in>set ?qs. \<not> isl (snd q)"
    using assms by auto
  have "mset (map ?h ?qs) = mset (map ?h (map (\<lambda>k. (k, f k)) is))"
    by (rule mset_map_perm) (rule completion_order_mset)
  also have "map ?h (map (\<lambda>k. (k, f k)) is) = map (\<lambda>k. shard_chain k (projr (f k))) is"
    by (simp add: comp_def)
  also have "map (\<lambda>k. shard_chain k (projr (f k))) is = map (\<lambda>k. shard_chain k (g k)) is"
    by (rule map_cong [OF refl]) (simp add: assms)
  finally have "mset (map ?h ?qs) = mset (map (\<lambda>k. shard_chain k (g k)) is)" .
  moreover have "settle_all ?qs acc = Inr (acc @ map ?h ?qs)"
    using ok by (simp add: settle_all_Inr)
  ultimately show ?thesis by blast
qed

lemma chains_extend: "chains (node_status.extend st \<lparr> chains = cs \<rparr>) = cs"
  by (simp add: node_status.extend_def)

lemma lodash_range_nat: "lodash_range 0 (int N) = map int [0..<N]"
  by (simp add: lodash_range_def)

lemma index_beacon_chain: "chain_summary.index (beacon_chain b) = - 1"
  by (simp add: beacon_chain_def)

lemma index_shard_chain: "chain_summary.index (shard_chain i s) = i"
  by (simp add: shard_chain_def)

lemma getChains_try_found:
  assumes "readNodes fs = Inr nodes"
      and "find (\<lambda>item. node.name item = nodeName) nodes = Some n"
      and "GetBeaconBestState (ConstantRPC net (host n) (port n)) = Inr b"
  shows "getChains_try net schedule nodeName fs =
     (case settle_all
             (completion_order schedule
                (map (\<lambda>shardIndex.
                        (shardIndex,
                         GetShardBestState (ConstantRPC net (host n) (port n)) shardIndex))
                   (lodash_range 0 (ActiveShards b))))
             [beacon_chain b] of
        Inl e \<Rightarrow> Inl e
      | Inr cs \<Rightarrow>
          Inr (node_status.extend (nodeWithStatus net n) \<lparr> chains = orderBy_index cs \<rparr>))"
  using assms by (simp add: getChains_try_def Let_def split: sum.splits)

text \<open>
  Sorting by \<open>index\<close> puts the chains in one order, whatever order they were pushed in:
  the indices \<open>-1, 0, ..., N-1\<close> are all different.
\<close>

lemma orderBy_index_perm:
  assumes "mset cs = mset (map (\<lambda>k. shard_chain (int k) (g k)) [0..<N])"
  shows "orderBy_index (beacon_chain b # cs)
           = beacon_chain b # map (\<lambda>k. shard_chain (int k) (g k)) [0..<N]"
  unfolding orderBy_index_def
proof (rule sort_key_inj_key_eq)
  let ?ys = "map (\<lambda>k. shard_chain (int k) (g k)) [0..<N]"
  show "mset (beacon_chain b # cs) = mset (beacon_chain b # ?ys)"
    using assms by simp
  have idx: "map chain_summary.index ?ys = map int [0..<N]"
    by (simp add: index_shard_chain comp_def)
  have "distinct (map chain_summary.index (beacon_chain b # ?ys))"
    unfolding list.map idx index_beacon_chain
    by (auto simp: distinct_map inj_on_def)
  moreover have "set (beacon_chain b # cs) = set (beacon_chain b # ?ys)"
    using assms by (metis list.simps(15) set_mset_mset)
  ultimately show "inj_on chain_summary.index (set (beacon_chain b # cs))"
    by (simp only: distinct_map)
  have "sorted_wrt (\<lambda>x y. int x \<le> int y) [0..<N]"
    by (rule sorted_wrt_mono_rel [OF _ sorted_upt]) simp
  then have "sorted (map int [0..<N])"
    by (simp only: sorted_map)
  then show "sorted (map chain_summary.index (beacon_chain b # ?ys))"
    unfolding list.map idx index_beacon_chain by simp
qed

text \<open>
  C3. For a node of the store with \<open>N\<close> active shards whose beacon and shard best-state
  calls all succeed, \<^verbatim>\<open>getChains\<close> replies with the node's status and exactly \<open>N + 1\<close>
  chains: the beacon chain, of index \<open>-1\<close>, followed by the chain of shard \<open>i\<close> for
  \<open>i = 0, ..., N - 1\<close>, each once, so ascending by index. The reply is the same for
  every schedule, that is, whatever the order in which the shard queries complete.
\<close>

theorem getChains_sorted:
  assumes "readNodes fs = Inr nodes"
      and "find (\<lambda>item. node.name item = nodeName) nodes = Some n"
      and "GetBeaconBestState (ConstantRPC net (host n) (port n)) = Inr beaconInfo"
      and "ActiveShards beaconInfo = int N"
      and "\<forall>i<N. GetShardBestState (ConstantRPC net (host n) (port n)) (int i) = Inr (shard i)"
  shows "\<exists>nodeInfo. getChains net schedule nodeName fs = Node_info nodeInfo
           \<and> chains nodeInfo
               = beacon_chain beaconInfo # map (\<lambda>i. shard_chain (int i) (shard i)) [0..<N]
           \<and> length (chains nodeInfo) = N + 1
           \<and> map chain_summary.index (chains nodeInfo) = map (\<lambda>k. int k - 1) [0..<N + 1]
           \<and> sorted (map chain_summary.index (chains nodeInfo))
           \<and> node_status.truncate nodeInfo = nodeWithStatus net n"
proof -
  let ?r = "ConstantRPC net (host n) (port n)"
  let ?full = "beacon_chain beaconInfo # map (\<lambda>i. shard_chain (int i) (shard i)) [0..<N]"
  have "\<forall>i\<in>set (lodash_range 0 (ActiveShards beaconInfo)).
          GetShardBestState ?r i = Inr (shard (nat i))"
    using assms(4,5) by (auto simp: lodash_range_nat)
  from settle_completion_ok [OF this, of schedule "[beacon_chain beaconInfo]"]
  obtain cs where cs:
    "settle_all (completion_order schedule
        (map (\<lambda>k. (k, GetShardBestState ?r k)) (lodash_range 0 (ActiveShards beaconInfo))))
        [beacon_chain beaconInfo] = Inr ([beacon_chain beaconInfo] @ cs)"
    "mset cs = mset (map (\<lambda>k. shard_chain k (shard (nat k)))
                      (lodash_range 0 (ActiveShards beaconInfo)))"
    by blast
  have "mset cs = mset (map (\<lambda>k. shard_chain (int k) (shard k)) [0..<N])"
    using cs(2) assms(4) by (simp add: lodash_range_nat comp_def)
  then have ordered: "orderBy_index (beacon_chain beaconInfo # cs) = ?full"
    by (rule orderBy_index_perm)
  let ?info = "node_status.extend (nodeWithStatus net n) \<lparr> chains = ?full \<rparr>"
  have reply: "getChains net schedule nodeName fs = Node_info ?info"
    using cs(1) ordered
    by (simp add: getChains_def getChains_try_found [OF assms(1,2,3)])
  have "[0..<N + 1] = 0 # map Suc [0..<N]"
    using upt_rec [of 0 "N + 1"] by (simp add: map_Suc_upt del: upt_Suc)
  then have idx: "map chain_summary.index ?full = map (\<lambda>k. int k - 1) [0..<N + 1]"
    by (simp add: index_beacon_chain index_shard_chain comp_def del: upt_Suc)
  have "sorted_wrt (\<lambda>x y. int x - 1 \<le> int y - 1) [0..<N + 1]"
    by (rule sorted_wrt_mono_rel [OF _ sorted_upt]) simp
  then have "sorted (map (\<lambda>k. int k - 1) [0..<N + 1])"
    by (simp only: sorted_map)
  then have srt: "sorted (map chain_summary.index ?full)"
    by (simp only: idx)
  have trunc: "node_status.truncate ?info = nodeWithStatus net n"
    by (simp add: node_status.truncate_def node_status.extend_def)
  have c: "chains ?info = ?full"
    by (rule chains_extend)
  show ?thesis
  proof (intro exI conjI)
    show "getChains net schedule nodeName fs = Node_info ?info"
      by (rule reply)
    show "chains ?info = ?full"
      by (rule c)
    show "length (chains ?info) = N + 1"
      unfolding c by simp
    show "map chain_summary.index (chains ?info) = map (\<lambda>k. int k - 1) [0..<N + 1]"
      unfolding c by (rule idx)
    show "sorted (map chain_summary.index (chains ?info))"
      unfolding c by (rule srt)
    show "node_status.truncate ?info = nodeWithStatus net n"
      by (rule trunc)
  qed
qed

text \<open>
  The scenario of the spec: \<open>X\<close> has two active shards, beacon height 100, shard
  heights 50 and 60; here shard 1 answers before shard 0.
\<close>

theorem getChains_sorted_witness:
  "map (\<lambda>c. (chain_summary.index c, chain_summary.height c))
       (reply_chains (getChains net_up [1] ''X'' (store_of [node_X])))
     = [(- 1, 100), (0, 50), (1, 60)]"
proof -
  have "find (\<lambda>item. node.name item = ''X'') [node_X] = Some node_X"
    by (simp add: node_X_def)
  moreover have
    "GetBeaconBestState (ConstantRPC net_up (host node_X) (port node_X)) = Inr beacon_X"
    by (simp add: ConstantRPC_def net_up_def rpc_up_def)
  moreover have "ActiveShards beacon_X = int 2"
    by (simp add: beacon_X_def)
  moreover have
    "\<forall>i<2. GetShardBestState (ConstantRPC net_up (host node_X) (port node_X)) (int i)
              = Inr (shard_X (int i))"
    by (simp add: ConstantRPC_def net_up_def rpc_up_def)
  ultimately obtain nodeInfo where
    "getChains net_up [1] ''X'' (store_of [node_X]) = Node_info nodeInfo"
    "chains nodeInfo
       = beacon_chain beacon_X # map (\<lambda>i. shard_chain (int i) (shard_X (int i))) [0..<2]"
    using getChains_sorted [OF readNodes_store_of, of "''X''" "[node_X]" node_X net_up
        beacon_X 2 "\<lambda>i. shard_X (int i)" "[1]"]
    by blast
  then show ?thesis
    by (simp add: reply_chains_def beacon_chain_def shard_chain_def beacon_X_def shard_X_def
        upt_rec [of 0] upt_rec [of 1] numeral_2_eq_2)
qed

text \<open>
  C4. When a step of \<^verbatim>\<open>getChains\<close> fails - the data file cannot be read, no stored
  node has the name, the beacon best-state call is rejected, or one of the shard
  best-state calls is rejected - the reply is \<^verbatim>\<open>{ chains: [], name: nodeName }\<close>:
  no chain is listed, and the handler replies instead of throwing. This holds for every
  schedule, so also when other shard queries had completed before the one that failed.
\<close>

theorem getChains_fallback:
  assumes "isl (readNodes fs)
     \<or> (readNodes fs = Inr nodes \<and> find (\<lambda>item. node.name item = nodeName) nodes = None)
     \<or> (readNodes fs = Inr nodes \<and> find (\<lambda>item. node.name item = nodeName) nodes = Some n
         \<and> isl (GetBeaconBestState (ConstantRPC net (host n) (port n))))
     \<or> (readNodes fs = Inr nodes \<and> find (\<lambda>item. node.name item = nodeName) nodes = Some n
         \<and> GetBeaconBestState (ConstantRPC net (host n) (port n)) = Inr beaconInfo
         \<and> shardIndex \<in> set (lodash_range 0 (ActiveShards beaconInfo))
         \<and> isl (GetShardBestState (ConstantRPC net (host n) (port n)) shardIndex))"
  shows "getChains net schedule nodeName fs = Chains_only [] nodeName
       \<and> reply_chains (getChains net schedule nodeName fs) = []
       \<and> reply_name (getChains net schedule nodeName fs) = nodeName"
proof -
  have "isl (getChains_try net schedule nodeName fs)"
    using assms
  proof (elim disjE conjE)
    assume "isl (readNodes fs)"
    then show ?thesis
      by (auto simp: getChains_try_def split: sum.splits)
  next
    assume "readNodes fs = Inr nodes" "find (\<lambda>item. node.name item = nodeName) nodes = None"
    then show ?thesis
      by (simp add: getChains_try_def)
  next
    assume "readNodes fs = Inr nodes"
      "find (\<lambda>item. node.name item = nodeName) nodes = Some n"
      "isl (GetBeaconBestState (ConstantRPC net (host n) (port n)))"
    then show ?thesis
      by (auto simp: getChains_try_def Let_def split: sum.splits)
  next
    assume a: "readNodes fs = Inr nodes"
      "find (\<lambda>item. node.name item = nodeName) nodes = Some n"
      "GetBeaconBestState (ConstantRPC net (host n) (port n)) = Inr beaconInfo"
      "shardIndex \<in> set (lodash_range 0 (ActiveShards beaconInfo))"
      "isl (GetShardBestState (ConstantRPC net (host n) (port n)) shardIndex)"
    have "isl (settle_all (completion_order schedule
        (map (\<lambda>k. (k, GetShardBestState (ConstantRPC net (host n) (port n)) k))
           (lodash_range 0 (ActiveShards beaconInfo))))
        [beacon_chain beaconInfo])"
      using a(4,5) by (rule settle_completion_fails)
    then show ?thesis
      by (auto simp: getChains_try_found [OF a(1,2,3)] split: sum.splits)
  qed
  then have "getChains net schedule nodeName fs = Chains_only [] nodeName"
    by (auto simp: getChains_def split: sum.splits)
  then show ?thesis
    by (simp add: reply_chains_def reply_name_def)
qed

text \<open>
  Shard 1 of \<open>X\<close> times out after shard 0 has answered; and no node is named \<open>Y\<close>.
\<close>

theorem getChains_fallback_witness:
  "getChains net_shard_down [0] ''X'' (store_of [node_X]) = Chains_only [] ''X''
   \<and> getChains net_up [] ''Y'' (store_of [node_X]) = Chains_only [] ''Y''"
proof -
  have "readNodes (store_of [node_X]) = Inr [node_X]
      \<and> find (\<lambda>item. node.name item = ''X'') [node_X] = Some node_X
      \<and> GetBeaconBestState (ConstantRPC net_shard_down (host node_X) (port node_X))
          = Inr beacon_X
      \<and> 1 \<in> set (lodash_range 0 (ActiveShards beacon_X))
      \<and> isl (GetShardBestState (ConstantRPC net_shard_down (host node_X) (port node_X)) 1)"
    by (simp add: readNodes_store_of node_X_def ConstantRPC_def net_shard_down_def rpc_up_def
        beacon_X_def lodash_range_def upt_rec [of 0] upt_rec [of 1] numeral_2_eq_2)
  then have 1: "getChains net_shard_down [0] ''X'' (store_of [node_X]) = Chains_only [] ''X''"
    using getChains_fallback [of "store_of [node_X]" "[node_X]" "''X''" node_X net_shard_down
        beacon_X 1 "[0]"]
    by blast
  have "readNodes (store_of [node_X]) = Inr [node_X]
      \<and> find (\<lambda>item. node.name item = ''Y'') [node_X] = None"
    by (simp add: readNodes_store_of node_X_def)
  then have 2: "getChains net_up [] ''Y'' (store_of [node_X]) = Chains_only [] ''Y''"
    using getChains_fallback [of "store_of [node_X]" "[node_X]" "''Y''" _ net_up _ _ "[]"]
    by blast
  from 1 2 show ?thesis by simp
qed

text \<open>
  Every reply of \<^verbatim>\<open>getChains\<close> is either the empty one or lists the beacon chain and
  the chain of every shard queried: a partial list is never replied.
\<close>

lemma getChains_complete_or_empty:
  "getChains net schedule nodeName fs = Chains_only [] nodeName
   \<or> (\<exists>nodes n beaconInfo shard nodeInfo.
        readNodes fs = Inr nodes
        \<and> find (\<lambda>item. node.name item = nodeName) nodes = Some n
        \<and> GetBeaconBestState (ConstantRPC net (host n) (port n)) = Inr beaconInfo
        \<and> (\<forall>i\<in>set (lodash_range 0 (ActiveShards beaconInfo)).
              GetShardBestState (ConstantRPC net (host n) (port n)) i = Inr (shard i))
        \<and> getChains net schedule nodeName fs = Node_info nodeInfo
        \<and> mset (chains nodeInfo)
            = mset (beacon_chain beaconInfo
                    # map (\<lambda>i. shard_chain i (shard i))
                        (lodash_range 0 (ActiveShards beaconInfo))))"
proof (cases "getChains_try net schedule nodeName fs")
  case (Inl e)
  then show ?thesis
    by (simp add: getChains_def)
next
  case (Inr info)
  then obtain nodes where nodes: "readNodes fs = Inr nodes"
    by (auto simp: getChains_try_def split: sum.splits)
  with Inr obtain n where n: "find (\<lambda>item. node.name item = nodeName) nodes = Some n"
    by (auto simp: getChains_try_def split: option.splits)
  let ?r = "ConstantRPC net (host n) (port n)"
  from Inr nodes n obtain b where b: "GetBeaconBestState ?r = Inr b"
    by (auto simp: getChains_try_def Let_def split: sum.splits)
  let ?range = "lodash_range 0 (ActiveShards b)"
  let ?qs = "completion_order schedule (map (\<lambda>k. (k, GetShardBestState ?r k)) ?range)"
  from Inr obtain cs where cs: "settle_all ?qs [beacon_chain b] = Inr cs"
    and info: "info = node_status.extend (nodeWithStatus net n) \<lparr> chains = orderBy_index cs \<rparr>"
    by (auto simp: getChains_try_found [OF nodes n b] split: sum.splits)
  have ok: "\<forall>i\<in>set ?range. GetShardBestState ?r i = Inr (projr (GetShardBestState ?r i))"
  proof
    fix i
    assume "i \<in> set ?range"
    then have "(i, GetShardBestState ?r i) \<in> set ?qs"
      by (simp add: completion_order_set)
    then have "\<not> isl (GetShardBestState ?r i)"
      using cs by (auto simp: settle_all_Inr)
    then show "GetShardBestState ?r i = Inr (projr (GetShardBestState ?r i))"
      by (cases "GetShardBestState ?r i") simp_all
  qed
  from settle_completion_ok [OF ok, of schedule "[beacon_chain b]"] cs
  have "mset cs = mset (beacon_chain b
          # map (\<lambda>i. shard_chain i (projr (GetShardBestState ?r i))) ?range)"
    by auto
  then have "mset (chains info) = mset (beacon_chain b
          # map (\<lambda>i. shard_chain i (projr (GetShardBestState ?r i))) ?range)"
    by (simp add: info chains_extend orderBy_index_def)
  moreover have "getChains net schedule nodeName fs = Node_info info"
    using Inr by (simp add: getChains_def)
  ultimately have "readNodes fs = Inr nodes
        \<and> find (\<lambda>item. node.name item = nodeName) nodes = Some n
        \<and> GetBeaconBestState ?r = Inr b
        \<and> (\<forall>i\<in>set ?range. GetShardBestState ?r i = Inr (projr (GetShardBestState ?r i)))
        \<and> getChains net schedule nodeName fs = Node_info info
        \<and> mset (chains info)
            = mset (beacon_chain b
                    # map (\<lambda>i. shard_chain i (projr (GetShardBestState ?r i))) ?range)"
    using nodes n b ok by simp
  then show ?thesis
    by (intro disjI2 exI [of _ nodes] exI [of _ n] exI [of _ b]
        exI [of _ "\<lambda>i. projr (GetShardBestState ?r i)"] exI [of _ info])
qed

subsection \<open>getBlocks\<close>

lemma formatBlock_fields:
  "block_summary.height (formatBlock b) = Height b"
  "block_summary.hash (formatBlock b) = Hash b"
  "block_summary.producer (formatBlock b) = BlockProducer b"
  "tXS (formatBlock b) = or_zero (Txs b)"
  "fee (formatBlock b) = or_zero (Fee b)"
  "reward (formatBlock b) = or_zero (Reward b)"
  "time (formatBlock b) = Time b"
  by (simp_all add: formatBlock_def)

lemma or_zero_simps: "or_zero None = 0" "or_zero (Some v) = v"
  by (simp_all add: or_zero_def)

text \<open>
  C5. When the node is in the store and \<^verbatim>\<open>GetBlocks(10, shardIndex)\<close> returns a
  non-empty batch, \<^verbatim>\<open>getBlocks\<close> replies with a chain whose \<open>blocks\<close> are the summaries
  of the raw blocks, in order; in a summary \<open>tXS\<close>, \<open>fee\<close> and \<open>reward\<close> are the block's
  \<open>Txs\<close>, \<open>Fee\<close> and \<open>Reward\<close>, or zero where the block has none, and the other fields
  are copied. The chain's \<open>totalBlocks\<close> and \<open>producer\<close> are the height and the
  producer of the first block of the batch.
\<close>

theorem getBlocks_summary:
  assumes "readNodes fs = Inr nodes"
      and "find (\<lambda>item. node.name item = nodeName) nodes = Some n"
      and "GetBlocks (ConstantRPC net (host n) (port n)) 10 (parseInt shardId)
             = Inr (first # rest)"
  shows "\<exists>chain. getBlocks net nodeName shardId fs = Inr chain
           \<and> blocks chain = map formatBlock (first # rest)
           \<and> chain_blocks.totalBlocks chain = Height first
           \<and> chain_blocks.producer chain = BlockProducer first
           \<and> (\<forall>b \<in> set (first # rest).
                 tXS (formatBlock b) = (case Txs b of None \<Rightarrow> 0 | Some v \<Rightarrow> v)
               \<and> fee (formatBlock b) = (case Fee b of None \<Rightarrow> 0 | Some v \<Rightarrow> v)
               \<and> reward (formatBlock b) = (case Reward b of None \<Rightarrow> 0 | Some v \<Rightarrow> v)
               \<and> block_summary.height (formatBlock b) = Height b
               \<and> block_summary.hash (formatBlock b) = Hash b
               \<and> block_summary.producer (formatBlock b) = BlockProducer b
               \<and> time (formatBlock b) = Time b)"
  using assms
  by (simp add: getBlocks_def Let_def formatBlock_fields or_zero_simps split: option.splits)

theorem getBlocks_summary_witness:
  "getBlocks net_blocks ''X'' 0 (store_of [node_X])
     = Inr \<lparr> chain_blocks.name = ''Shard 1'', totalBlocks = 12, producer = ''p1'',
             blocks = [\<lparr> block_summary.height = 12, hash = ''h12'', producer = ''p1'',
                          tXS = 0, fee = 5, reward = 0, time = 1700000012 \<rparr>,
                       \<lparr> block_summary.height = 11, hash = ''h11'', producer = ''p2'',
                          tXS = 2, fee = 0, reward = 40, time = 1700000011 \<rparr>] \<rparr>"
proof -
  have "find (\<lambda>item. node.name item = ''X'') [node_X] = Some node_X"
    by (simp add: node_X_def)
  moreover have
    "GetBlocks (ConstantRPC net_blocks (host node_X) (port node_X)) 10 (parseInt 0)
       = Inr (block_12 # [block_11])"
    by (simp add: ConstantRPC_def net_blocks_def)
  ultimately obtain chain where
    "getBlocks net_blocks ''X'' 0 (store_of [node_X]) = Inr chain"
    "blocks chain = map formatBlock [block_12, block_11]"
    "chain_blocks.totalBlocks chain = Height block_12"
    "chain_blocks.producer chain = BlockProducer block_12"
    using getBlocks_summary [OF readNodes_store_of, of "''X''" "[node_X]" node_X net_blocks 0
        block_12 "[block_11]"]
    by blast
  moreover have "chain_blocks.name chain = ''Shard 1''"
    using calculation(1)
    by (auto simp add: getBlocks_def readNodes_store_of node_X_def ConstantRPC_def
        net_blocks_def Let_def parseInt_def string_of_int_def split: list.splits)
  ultimately show ?thesis
    by (cases chain) (simp add: formatBlock_def block_12_def block_11_def or_zero_def)
qed

text \<open>
  C10. When the node is in the store and \<^verbatim>\<open>GetBlocks(10, shardIndex)\<close> returns an
  empty batch, \<^verbatim>\<open>getBlocks\<close> does not reply with a chain whose block list is empty: it
  fails with the TypeError of reading \<^verbatim>\<open>height\<close> of \<^verbatim>\<open>formattedBlocks[0]\<close>, which is
  \<^verbatim>\<open>undefined\<close>.
\<close>

theorem getBlocks_empty_batch:
  assumes "readNodes fs = Inr nodes"
      and "find (\<lambda>item. node.name item = nodeName) nodes = Some n"
      and "GetBlocks (ConstantRPC net (host n) (port n)) 10 (parseInt shardId) = Inr []"
  shows "getBlocks net nodeName shardId fs = Inl TypeError"
  using assms by (simp add: getBlocks_def)

theorem getBlocks_empty_batch_witness:
  "getBlocks net_up ''X'' 0 (store_of [node_X]) = Inl TypeError"
proof -
  have "find (\<lambda>item. node.name item = ''X'') [node_X] = Some node_X"
    by (simp add: node_X_def)
  moreover have
    "GetBlocks (ConstantRPC net_up (host node_X) (port node_X)) 10 (parseInt 0) = Inr []"
    by (simp add: ConstantRPC_def net_up_def rpc_up_def)
  ultimately show ?thesis
    using getBlocks_empty_batch [OF readNodes_store_of, of "''X''" "[node_X]" node_X net_up 0]
    by blast
qed
end
